theory Spec2Isabelle
  imports Main "HOL-Library.Char_ord"
begin

text \<open>
  The query execution engine of \<^verbatim>\<open>utils/dbHelpers.js\<close>: \<open>executeDbQuery\<close> validates a
  generated SQL text, \<open>executeViaSupabaseRPC\<close> sends it to the \<^verbatim>\<open>execute_sql\<close> RPC of the
  backend, and \<open>parseAndExecuteQuery\<close>, the fallback, recognises a few query shapes with
  regular expressions and re-expresses each as a call of the client's query builder. A
  function of the model returns what the source returns or throws, paired with the calls
  that reached the backend.
\<close>

section \<open>JavaScript strings\<close>

text \<open>
  A JavaScript string is a sequence of UTF-16 code units. The model reads a \<^typ>\<open>string\<close>
  as the sequence of code units of a string whose code units are all below 256 (the
  Latin-1 range), one \<^typ>\<open>char\<close> per code unit. Within that range the white space of
  \<^verbatim>\<open>String.prototype.trim\<close> and of the regular expression class \<^verbatim>\<open>\s\<close> is TAB, LF, VT, FF,
  CR, SPACE and NBSP.
\<close>

definition is_space :: "char \<Rightarrow> bool" where
  "is_space c = (c = CHR 0x09 \<or> c = CHR 0x0A \<or> c = CHR 0x0B \<or> c = CHR 0x0C \<or>
     c = CHR 0x0D \<or> c = CHR 0x20 \<or> c = CHR 0xA0)"

text \<open>The class \<^verbatim>\<open>\d\<close> is \<^verbatim>\<open>[0-9]\<close> and \<^verbatim>\<open>\w\<close> is \<^verbatim>\<open>[A-Za-z0-9_]\<close>.\<close>

definition is_digit :: "char \<Rightarrow> bool" where
  "is_digit c = (CHR ''0'' \<le> c \<and> c \<le> CHR ''9'')"

definition is_word :: "char \<Rightarrow> bool" where
  "is_word c = ((CHR ''a'' \<le> c \<and> c \<le> CHR ''z'') \<or> (CHR ''A'' \<le> c \<and> c \<le> CHR ''Z'') \<or>
     is_digit c \<or> c = CHR ''_'')"

text \<open>The dot of a regular expression without the \<^verbatim>\<open>s\<close> flag: anything but a line terminator.\<close>

definition is_dot :: "char \<Rightarrow> bool" where
  "is_dot c = (c \<noteq> CHR 0x0A \<and> c \<noteq> CHR 0x0D)"

text \<open>A negated class \<^verbatim>\<open>[^...]\<close>, given by the characters it lists.\<close>

definition none_of :: "string \<Rightarrow> char \<Rightarrow> bool" where
  "none_of cs c = (\<not> List.member cs c)"

text \<open>
  \<^verbatim>\<open>toLowerCase\<close> on code units below 256: the letters A-Z and the Latin-1 capitals
  0xC0-0xDE (the multiplication sign 0xD7 apart) move up by 32, everything else stays.
\<close>

definition lower_char :: "char \<Rightarrow> char" where
  "lower_char c =
     (if (CHR ''A'' \<le> c \<and> c \<le> CHR ''Z'') \<or> (CHR 0xC0 \<le> c \<and> c \<le> CHR 0xDE \<and> c \<noteq> CHR 0xD7)
      then char_of (of_char c + (32::nat)) else c)"

definition toLowerCase :: "string \<Rightarrow> string" where
  "toLowerCase s = map lower_char s"

definition trim :: "string \<Rightarrow> string" where
  "trim s = rev (dropWhile is_space (rev (dropWhile is_space s)))"

definition startsWith :: "string \<Rightarrow> string \<Rightarrow> bool" where
  "startsWith s p = (take (length p) s = p)"

text \<open>\<^verbatim>\<open>s.includes(sub)\<close>: \<^verbatim>\<open>sub\<close> occurs in \<^verbatim>\<open>s\<close> at some position.\<close>

fun str_includes :: "string \<Rightarrow> string \<Rightarrow> bool" where
  "str_includes [] sub = (sub = [])"
| "str_includes (c # s) sub = (startsWith (c # s) sub \<or> str_includes s sub)"

text \<open>
  \<^verbatim>\<open>s.replace(/;+$/, '')\<close>: the pattern has no \<^verbatim>\<open>m\<close> flag, so \<^verbatim>\<open>$\<close> is the end of the
  input, and the leftmost match is the whole trailing run of semicolons.
\<close>

definition strip_semicolons :: "string \<Rightarrow> string" where
  "strip_semicolons s = rev (dropWhile (\<lambda>c. c = CHR '';'') (rev s))"

text \<open>
  \<^verbatim>\<open>s.split(';')\<close>: the pieces between the separators; a string without a separator is
  one piece, and so is the empty string.
\<close>

fun split_on :: "char \<Rightarrow> string \<Rightarrow> string list" where
  "split_on d [] = [[]]"
| "split_on d (c # s) =
     (if c = d then [] # split_on d s
      else (case split_on d s of p # ps \<Rightarrow> (c # p) # ps | [] \<Rightarrow> [[c]]))"

section \<open>Regular expressions\<close>

text \<open>
  The patterns of the source are values of \<open>regex\<close>. \<open>Str\<close> is a run of literal
  characters, \<open>Cls\<close> a character class, \<open>Opt\<close>, \<open>Star\<close> and \<open>Plus\<close> the greedy
  quantifiers \<^verbatim>\<open>?\<close>, \<^verbatim>\<open>*\<close> and \<^verbatim>\<open>+\<close>, \<open>Group n\<close> the \<open>n\<close>-th capturing group, \<open>Bol\<close>
  and \<open>Eol\<close> the assertions \<^verbatim>\<open>^\<close> and \<^verbatim>\<open>$\<close> (no \<^verbatim>\<open>m\<close> flag). A non-capturing group
  \<^verbatim>\<open>(?:...)\<close> is the sequence it holds.
\<close>

datatype regex =
    Str string
  | Cls "char \<Rightarrow> bool"
  | Seq regex regex
  | Opt regex
  | Star regex
  | Plus regex
  | Group nat regex
  | Bol
  | Eol

fun seqs :: "regex list \<Rightarrow> regex" where
  "seqs [] = Str []"
| "seqs [r] = r"
| "seqs (r # rs) = Seq r (seqs rs)"

text \<open>
  A matcher state is the number of code units before the current position, the input
  from the current position on, and the captures so far. \<open>run r st\<close> lists the states in
  which \<open>r\<close> can end when started in \<open>st\<close>, in the order in which a backtracking matcher
  tries them: a greedy quantifier tries one more iteration before it tries to stop. As
  in ECMAScript, an iteration of \<^verbatim>\<open>*\<close> (and of \<^verbatim>\<open>+\<close> after the first) that consumes nothing
  is not taken, and neither is one of \<^verbatim>\<open>?\<close>. (ECMAScript also clears the captures of
  a quantified group at each iteration; no pattern of the source has a group under \<^verbatim>\<open>*\<close>
  or \<^verbatim>\<open>+\<close>.)
\<close>

type_synonym captures = "nat \<Rightarrow> string option"
type_synonym mstate = "nat \<times> string \<times> captures"

fun weight :: "regex \<Rightarrow> nat" where
  "weight (Str w) = 0"
| "weight (Cls p) = 0"
| "weight (Seq a b) = Suc (weight a + weight b)"
| "weight (Opt a) = Suc (weight a)"
| "weight (Star a) = Suc (weight a)"
| "weight (Plus a) = Suc (Suc (weight a))"
| "weight (Group n a) = Suc (weight a)"
| "weight Bol = 0"
| "weight Eol = 0"

function run :: "regex \<Rightarrow> mstate \<Rightarrow> mstate list" where
  "run (Str w) (i, s, g) =
     (if take (length w) s = w then [(i + length w, drop (length w) s, g)] else [])"
| "run (Cls p) (i, s, g) =
     (case s of [] \<Rightarrow> [] | c # t \<Rightarrow> if p c then [(Suc i, t, g)] else [])"
| "run (Seq a b) st = concat (map (run b) (run a st))"
| "run (Opt a) (i, s, g) =
     filter (\<lambda>(j, t, h). length t < length s) (run a (i, s, g)) @ [(i, s, g)]"
| "run (Star a) (i, s, g) =
     concat (map (\<lambda>(j, t, h). if length t < length s then run (Star a) (j, t, h) else [])
       (run a (i, s, g))) @ [(i, s, g)]"
| "run (Plus a) st = concat (map (run (Star a)) (run a st))"
| "run (Group n a) (i, s, g) =
     map (\<lambda>(j, t, h). (j, t, h(n \<mapsto> take (j - i) s))) (run a (i, s, g))"
| "run Bol (i, s, g) = (if i = 0 then [(i, s, g)] else [])"
| "run Eol (i, s, g) = (if s = [] then [(i, s, g)] else [])"
  by pat_completeness auto
termination
  by (relation "measures [\<lambda>(r, st). weight r, \<lambda>(r, (i, s, g)). length s]") auto

declare run.simps [simp del]

text \<open>
  \<^verbatim>\<open>s.match(r)\<close> for a pattern without the \<^verbatim>\<open>g\<close> flag: the start positions are tried
  from the left, and the first way the matcher finds gives the captures. \<open>None\<close> is
  JavaScript's \<^verbatim>\<open>null\<close>; a group that took no part in the match is \<open>None\<close> in the
  captures (\<^verbatim>\<open>undefined\<close>).
\<close>

fun search :: "regex \<Rightarrow> nat \<Rightarrow> string \<Rightarrow> captures option" where
  "search r i [] = (case run r (i, [], Map.empty) of [] \<Rightarrow> None | (j, t, g) # _ \<Rightarrow> Some g)"
| "search r i (c # s) =
     (case run r (i, c # s, Map.empty) of
        [] \<Rightarrow> search r (Suc i) s
      | (j, t, g) # _ \<Rightarrow> Some g)"

definition js_match :: "regex \<Rightarrow> string \<Rightarrow> captures option" where
  "js_match r s = search r 0 s"

section \<open>The patterns of the source\<close>

text \<open>\<^verbatim>\<open>/^select\s+\*\s+from\s+(\w+)(?:\s+limit\s+(\d+))?(?:\s*;)?$/\<close>\<close>

definition simpleSelect_re :: regex where
  "simpleSelect_re = seqs [Bol, Str ''select'', Plus (Cls is_space), Str ''*'',
     Plus (Cls is_space), Str ''from'', Plus (Cls is_space), Group 1 (Plus (Cls is_word)),
     Opt (seqs [Plus (Cls is_space), Str ''limit'', Plus (Cls is_space),
       Group 2 (Plus (Cls is_digit))]),
     Opt (seqs [Star (Cls is_space), Str '';'']), Eol]"

text \<open>\<^verbatim>\<open>/^select\s+count\(\*\)\s*(?:as\s+(\w+)\s+)?from\s+(\w+)(?:\s*;)?$/\<close>\<close>

definition count_re :: regex where
  "count_re = seqs [Bol, Str ''select'', Plus (Cls is_space), Str ''count(*)'',
     Star (Cls is_space),
     Opt (seqs [Str ''as'', Plus (Cls is_space), Group 1 (Plus (Cls is_word)),
       Plus (Cls is_space)]),
     Str ''from'', Plus (Cls is_space), Group 2 (Plus (Cls is_word)),
     Opt (seqs [Star (Cls is_space), Str '';'']), Eol]"

text \<open>\<^verbatim>\<open>/^select\s+\*\s+from\s+(\w+)\s+where\s+(\w+)\s*=\s*'([^']+)'(?:\s+limit\s+(\d+))?(?:\s*;)?$/\<close>\<close>

definition whereString_re :: regex where
  "whereString_re = seqs [Bol, Str ''select'', Plus (Cls is_space), Str ''*'',
     Plus (Cls is_space), Str ''from'', Plus (Cls is_space), Group 1 (Plus (Cls is_word)),
     Plus (Cls is_space), Str ''where'', Plus (Cls is_space), Group 2 (Plus (Cls is_word)),
     Star (Cls is_space), Str ''='', Star (Cls is_space), Str [CHR 0x27],
     Group 3 (Plus (Cls (none_of [CHR 0x27]))), Str [CHR 0x27],
     Opt (seqs [Plus (Cls is_space), Str ''limit'', Plus (Cls is_space),
       Group 4 (Plus (Cls is_digit))]),
     Opt (seqs [Star (Cls is_space), Str '';'']), Eol]"

text \<open>\<^verbatim>\<open>/^select\s+\*\s+from\s+(\w+)\s+where\s+(\w+)\s*=\s*(\d+)(?:\s+limit\s+(\d+))?(?:\s*;)?$/\<close>\<close>

definition whereNum_re :: regex where
  "whereNum_re = seqs [Bol, Str ''select'', Plus (Cls is_space), Str ''*'',
     Plus (Cls is_space), Str ''from'', Plus (Cls is_space), Group 1 (Plus (Cls is_word)),
     Plus (Cls is_space), Str ''where'', Plus (Cls is_space), Group 2 (Plus (Cls is_word)),
     Star (Cls is_space), Str ''='', Star (Cls is_space), Group 3 (Plus (Cls is_digit)),
     Opt (seqs [Plus (Cls is_space), Str ''limit'', Plus (Cls is_space),
       Group 4 (Plus (Cls is_digit))]),
     Opt (seqs [Star (Cls is_space), Str '';'']), Eol]"

text \<open>\<^verbatim>\<open>/^select\s+([^*][^from]+)\s+from\s+(\w+)(?:\s+limit\s+(\d+))?(?:\s*;)?$/\<close>\<close>

definition selectColumns_re :: regex where
  "selectColumns_re = seqs [Bol, Str ''select'', Plus (Cls is_space),
     Group 1 (Seq (Cls (none_of ''*'')) (Plus (Cls (none_of ''from'')))),
     Plus (Cls is_space), Str ''from'', Plus (Cls is_space), Group 2 (Plus (Cls is_word)),
     Opt (seqs [Plus (Cls is_space), Str ''limit'', Plus (Cls is_space),
       Group 3 (Plus (Cls is_digit))]),
     Opt (seqs [Star (Cls is_space), Str '';'']), Eol]"

text \<open>\<^verbatim>\<open>/^select\s+(\w+),\s*count\(\*\)\s*(?:as\s+(\w+))?\s+from\s+(\w+)\s+group\s+by\s+(\w+)$/\<close>\<close>

definition groupBy_re :: regex where
  "groupBy_re = seqs [Bol, Str ''select'', Plus (Cls is_space), Group 1 (Plus (Cls is_word)),
     Str '','', Star (Cls is_space), Str ''count(*)'', Star (Cls is_space),
     Opt (seqs [Str ''as'', Plus (Cls is_space), Group 2 (Plus (Cls is_word))]),
     Plus (Cls is_space), Str ''from'', Plus (Cls is_space), Group 3 (Plus (Cls is_word)),
     Plus (Cls is_space), Str ''group'', Plus (Cls is_space), Str ''by'',
     Plus (Cls is_space), Group 4 (Plus (Cls is_word)), Eol]"

text \<open>\<^verbatim>\<open>/select.*\*.*from\s+(\w+)/\<close>\<close>

definition basicSelect_re :: regex where
  "basicSelect_re = seqs [Str ''select'', Star (Cls is_dot), Str ''*'', Star (Cls is_dot),
     Str ''from'', Plus (Cls is_space), Group 1 (Plus (Cls is_word))]"

section \<open>Values, the backend and its calls\<close>

text \<open>
  JSON values as the backend returns them. Numbers are the integers (a JavaScript number
  holds them exactly up to \<open>2 ^ 53\<close>, and prints them in decimal digits); an object is
  the list of its own properties, each name once, in creation order.
\<close>

datatype json =
    JNull
  | JBool bool
  | JNum int
  | JStr string
  | JArr "json list"
  | JObj "(string \<times> json) list"

text \<open>What \<^verbatim>\<open>if (v)\<close> and \<^verbatim>\<open>v || d\<close> test.\<close>

fun truthy :: "json \<Rightarrow> bool" where
  "truthy JNull = False"
| "truthy (JBool b) = b"
| "truthy (JNum n) = (n \<noteq> 0)"
| "truthy (JStr s) = (s \<noteq> [])"
| "truthy (JArr xs) = True"
| "truthy (JObj ps) = True"

text \<open>A thrown \<^verbatim>\<open>Error\<close> (or the backend's error object), by its \<^verbatim>\<open>message\<close>.\<close>

datatype js_error = Error string

text \<open>
  The query builder of the client: \<^verbatim>\<open>client.from(table).select(columns, options)\<close>,
  then \<^verbatim>\<open>.eq(column, value)\<close> and \<^verbatim>\<open>.limit(n)\<close> where the source adds them. \<open>head_count\<close>
  says that the options are \<^verbatim>\<open>{ count: 'exact', head: true }\<close>.
\<close>

record builder =
  table :: string
  columns :: string
  head_count :: bool
  eq_filter :: "(string \<times> json) option"
  limit :: "int option"

text \<open>
  What awaiting a call resolves to: \<^verbatim>\<open>{ data, error, count }\<close>. \<open>error\<close> is the message of
  the error object, \<open>None\<close> for \<^verbatim>\<open>null\<close>. The RPC returns any JSON as its data; the query
  builder returns an array of row objects or \<^verbatim>\<open>null\<close>.
\<close>

record 'd response =
  data :: 'd
  error :: "string option"
  count :: "nat option"

type_synonym row = "(string \<times> json) list"

record client =
  rpc :: "string \<Rightarrow> string \<Rightarrow> json response"
  query :: "builder \<Rightarrow> row list option response"

text \<open>The calls that reach the backend, in the order in which they are made.\<close>

datatype call = RpcCall string string | QueryCall builder

type_synonym outcome = "(js_error + json) \<times> call list"

definition from_select :: "string \<Rightarrow> string \<Rightarrow> builder" where
  "from_select t cols =
     \<lparr>table = t, columns = cols, head_count = False, eq_filter = None, limit = None\<rparr>"

text \<open>
  \<^verbatim>\<open>const { data, error } = await queryBuilder; if (error) throw error; return data || [];\<close>
\<close>

definition await_rows :: "client \<Rightarrow> builder \<Rightarrow> outcome" where
  "await_rows cl qb =
     (let r = query cl qb in
      (case error r of
         Some msg \<Rightarrow> Inl (Error msg)
       | None \<Rightarrow> Inr (case data r of Some rows \<Rightarrow> JArr (map JObj rows) | None \<Rightarrow> JArr [])),
      [QueryCall qb])"

text \<open>\<^verbatim>\<open>parseInt\<close> on a run of decimal digits (exact; the digits are those of \<^verbatim>\<open>\d+\<close>).\<close>

definition digit_val :: "char \<Rightarrow> int" where
  "digit_val c = of_char c - 48"

definition parseInt :: "string \<Rightarrow> int" where
  "parseInt ds = foldl (\<lambda>n c. 10 * n + digit_val c) 0 ds"

text \<open>
  A capture of a group that the pattern cannot leave out. Were it \<^verbatim>\<open>undefined\<close>, the
  source would pass that on; \<open>count_captures\<close>, \<open>groupBy_captures\<close> and
  \<open>basicSelect_captures\<close> below show, for the patterns of the claims, that it is not.
\<close>

definition capture :: "captures \<Rightarrow> nat \<Rightarrow> string" where
  "capture m n = (case m n of Some s \<Rightarrow> s | None \<Rightarrow> ''undefined'')"

text \<open>
  \<^verbatim>\<open>m[n] ? parseInt(m[n]) : undefined\<close> followed by \<^verbatim>\<open>if (limit) qb = qb.limit(limit)\<close>:
  a limit of zero is falsy and sets no limit.
\<close>

definition with_limit :: "captures \<Rightarrow> nat \<Rightarrow> builder \<Rightarrow> builder" where
  "with_limit m n qb =
     (case m n of
        None \<Rightarrow> qb
      | Some ds \<Rightarrow> if ds \<noteq> [] \<and> parseInt ds \<noteq> 0 then qb\<lparr>limit := Some (parseInt ds)\<rparr> else qb)"

text \<open>\<^verbatim>\<open>m[n] || 'count'\<close>\<close>

definition alias_or_count :: "captures \<Rightarrow> nat \<Rightarrow> string" where
  "alias_or_count m n = (case m n of None \<Rightarrow> ''count'' | Some a \<Rightarrow> if a \<noteq> [] then a else ''count'')"

section \<open>A plain object used as a dictionary\<close>

text \<open>
  The group-count branch counts in \<^verbatim>\<open>const grouped = {}\<close>. A property key is a string:
  \<^verbatim>\<open>grouped[key]\<close> converts \<^verbatim>\<open>key\<close> with \<^verbatim>\<open>ToString\<close>.
\<close>

fun show_nat :: "nat \<Rightarrow> string" where
  "show_nat n =
     (if n < 10 then [char_of (48 + n)] else show_nat (n div 10) @ [char_of (48 + n mod 10)])"

definition show_int :: "int \<Rightarrow> string" where
  "show_int i = (if i < 0 then CHR ''-'' # show_nat (nat (- i)) else show_nat (nat i))"

fun join :: "string \<Rightarrow> string list \<Rightarrow> string" where
  "join sep [] = []"
| "join sep [s] = s"
| "join sep (s # ss) = s @ sep @ join sep ss"

fun to_string :: "json \<Rightarrow> string" where
  "to_string JNull = ''null''"
| "to_string (JBool b) = (if b then ''true'' else ''false'')"
| "to_string (JNum n) = show_int n"
| "to_string (JStr s) = s"
| "to_string (JArr xs) = join '','' (map (\<lambda>x. if x = JNull then [] else to_string x) xs)"
| "to_string (JObj ps) = ''[object Object]''"

text \<open>
  A plain object inherits from \<^verbatim>\<open>Object.prototype\<close>. Reading a name that is not an own
  property finds the inherited one: a native function for the names below (paired with
  the name of the function), the prototype itself for \<^verbatim>\<open>__proto__\<close>.
\<close>

definition object_prototype :: "(string \<times> string) list" where
  "object_prototype =
     [(''constructor'', ''Object''), (''__defineGetter__'', ''__defineGetter__''),
      (''__defineSetter__'', ''__defineSetter__''), (''hasOwnProperty'', ''hasOwnProperty''),
      (''__lookupGetter__'', ''__lookupGetter__''), (''__lookupSetter__'', ''__lookupSetter__''),
      (''isPrototypeOf'', ''isPrototypeOf''),
      (''propertyIsEnumerable'', ''propertyIsEnumerable''), (''toString'', ''toString''),
      (''valueOf'', ''valueOf''), (''toLocaleString'', ''toLocaleString'')]"


datatype looked = Undefined | Own json | Native string | Proto

definition get_prop :: "(string \<times> json) list \<Rightarrow> string \<Rightarrow> looked" where
  "get_prop ps k =
     (case map_of ps k of
        Some v \<Rightarrow> Own v
      | None \<Rightarrow>
          if k = ''__proto__'' then Proto
          else (case map_of object_prototype k of Some f \<Rightarrow> Native f | None \<Rightarrow> Undefined))"

text \<open>The source text of a native function, as V8 prints it.\<close>

definition native_source :: "string \<Rightarrow> string" where
  "native_source f = ''function '' @ f @ ''() { [native code] }''"

fun property_key :: "looked \<Rightarrow> string" where
  "property_key Undefined = ''undefined''"
| "property_key (Own v) = to_string v"
| "property_key (Native f) = native_source f"
| "property_key Proto = ''[object Object]''"

text \<open>\<^verbatim>\<open>v + 1\<close>: addition on numbers, concatenation once \<^verbatim>\<open>v\<close> is not a number.\<close>

fun plus_one :: "json \<Rightarrow> json" where
  "plus_one JNull = JNum 1"
| "plus_one (JBool b) = JNum (if b then 2 else 1)"
| "plus_one (JNum n) = JNum (n + 1)"
| "plus_one (JStr s) = JStr (s @ ''1'')"
| "plus_one (JArr xs) = JStr (to_string (JArr xs) @ ''1'')"
| "plus_one (JObj ps) = JStr (to_string (JObj ps) @ ''1'')"

text \<open>\<^verbatim>\<open>(grouped[key] || 0) + 1\<close>\<close>

definition next_count :: "(string \<times> json) list \<Rightarrow> string \<Rightarrow> json" where
  "next_count grouped key =
     (case get_prop grouped key of
        Undefined \<Rightarrow> JNum 1
      | Own v \<Rightarrow> plus_one (if truthy v then v else JNum 0)
      | Native f \<Rightarrow> JStr (native_source f @ ''1'')
      | Proto \<Rightarrow> JStr (''[object Object]1''))"

text \<open>Assignment to a property: an own property keeps its place, a new one comes last.\<close>

fun set_prop :: "(string \<times> json) list \<Rightarrow> string \<Rightarrow> json \<Rightarrow> (string \<times> json) list" where
  "set_prop [] k v = [(k, v)]"
| "set_prop ((k', v') # ps) k v = (if k' = k then (k, v) # ps else (k', v') # set_prop ps k v)"

text \<open>
  \<^verbatim>\<open>grouped[key] = (grouped[key] || 0) + 1\<close>. Assigning a string to \<^verbatim>\<open>__proto__\<close> calls the
  inherited setter, which ignores a value that is neither an object nor \<^verbatim>\<open>null\<close>.
\<close>

definition count_key :: "(string \<times> json) list \<Rightarrow> string \<Rightarrow> (string \<times> json) list" where
  "count_key grouped key =
     (if key = ''__proto__'' then grouped else set_prop grouped key (next_count grouped key))"

text \<open>
  \<^verbatim>\<open>Object.entries\<close>: the array indices first (canonical decimal strings below
  \<open>2 ^ 32 - 1\<close>), in ascending numeric order, then the other keys in creation order.
\<close>

definition is_array_index :: "string \<Rightarrow> bool" where
  "is_array_index k =
     (case k of
        [] \<Rightarrow> False
      | c # cs \<Rightarrow> list_all is_digit k \<and> (cs = [] \<or> c \<noteq> CHR ''0'') \<and> parseInt k < 4294967295)"

definition object_entries :: "(string \<times> json) list \<Rightarrow> (string \<times> json) list" where
  "object_entries ps =
     sort_key (\<lambda>p. parseInt (fst p)) (filter (\<lambda>p. is_array_index (fst p)) ps) @
     filter (\<lambda>p. \<not> is_array_index (fst p)) ps"

section \<open>The fallback: \<^verbatim>\<open>parseAndExecuteQuery\<close>\<close>

text \<open>The seven branches, in the order of the source, each as the source writes it.\<close>

definition simpleSelect :: "client \<Rightarrow> captures \<Rightarrow> outcome" where
  "simpleSelect cl m = await_rows cl (with_limit m 2 (from_select (capture m 1) ''*''))"

definition countQuery :: "client \<Rightarrow> captures \<Rightarrow> outcome" where
  "countQuery cl m =
     (let countAlias = alias_or_count m 1;
          tableName = capture m 2;
          qb = (from_select tableName ''*'')\<lparr>head_count := True\<rparr>;
          r = query cl qb
      in (case error r of
            Some msg \<Rightarrow> Inl (Error msg)
          | None \<Rightarrow>
              Inr (JArr [JObj [(countAlias,
                case count r of Some n \<Rightarrow> JNum (int n) | None \<Rightarrow> JNull)]]),
          [QueryCall qb]))"

definition whereString :: "client \<Rightarrow> captures \<Rightarrow> outcome" where
  "whereString cl m =
     await_rows cl (with_limit m 4
       ((from_select (capture m 1) ''*'')\<lparr>eq_filter := Some (capture m 2, JStr (capture m 3))\<rparr>))"

definition whereNum :: "client \<Rightarrow> captures \<Rightarrow> outcome" where
  "whereNum cl m =
     await_rows cl (with_limit m 4
       ((from_select (capture m 1) ''*'')
          \<lparr>eq_filter := Some (capture m 2, JNum (parseInt (capture m 3)))\<rparr>))"

definition selectColumns :: "client \<Rightarrow> captures \<Rightarrow> outcome" where
  "selectColumns cl m =
     await_rows cl (with_limit m 3 (from_select (capture m 2) (trim (capture m 1))))"

text \<open>
  The group-count branch, entered when the selected column is the group-by column.
  \<^verbatim>\<open>data.forEach\<close> throws a \<^verbatim>\<open>TypeError\<close> when \<^verbatim>\<open>data\<close> is \<^verbatim>\<open>null\<close>.
\<close>

definition group_rows :: "string \<Rightarrow> string \<Rightarrow> row list \<Rightarrow> json" where
  "group_rows groupColumn countAlias rows =
     (let grouped = foldl (\<lambda>g row. count_key g (property_key (get_prop row groupColumn))) [] rows
      in JArr (map (\<lambda>(key, n). JObj (set_prop [(groupColumn, JStr key)] countAlias n))
           (object_entries grouped)))"

definition groupByQuery :: "client \<Rightarrow> captures \<Rightarrow> outcome" where
  "groupByQuery cl m =
     (let groupColumn = capture m 1;
          countAlias = alias_or_count m 2;
          tableName = capture m 3;
          qb = from_select tableName groupColumn;
          r = query cl qb
      in (case error r of
            Some msg \<Rightarrow> Inl (Error msg)
          | None \<Rightarrow>
              (case data r of
                 None \<Rightarrow> Inl (Error ''Cannot read properties of null (reading 'forEach')'')
               | Some rows \<Rightarrow> Inr (group_rows groupColumn countAlias rows)),
          [QueryCall qb]))"

definition basicSelect :: "client \<Rightarrow> captures \<Rightarrow> outcome" where
  "basicSelect cl m = await_rows cl (from_select (capture m 1) ''*'')"

definition unsupported :: "string \<Rightarrow> outcome" where
  "unsupported q =
     (Inl (Error (''Query pattern not supported via Supabase client. Query: \"'' @ q @
        ''\". Install RPC function for complex queries or check query syntax.'')), [])"

definition lastResort :: "string \<Rightarrow> string \<Rightarrow> client \<Rightarrow> outcome" where
  "lastResort q lowerQuery cl =
     (case js_match basicSelect_re lowerQuery of
        Some m \<Rightarrow> basicSelect cl m
      | None \<Rightarrow> unsupported q)"

definition parseAndExecuteQuery :: "string \<Rightarrow> client \<Rightarrow> outcome" where
  "parseAndExecuteQuery q cl =
     (let lowerQuery = trim (toLowerCase q) in
      case js_match simpleSelect_re lowerQuery of Some m \<Rightarrow> simpleSelect cl m | None \<Rightarrow>
      (case js_match count_re lowerQuery of Some m \<Rightarrow> countQuery cl m | None \<Rightarrow>
      (case js_match whereString_re lowerQuery of Some m \<Rightarrow> whereString cl m | None \<Rightarrow>
      (case js_match whereNum_re lowerQuery of Some m \<Rightarrow> whereNum cl m | None \<Rightarrow>
      (case js_match selectColumns_re lowerQuery of Some m \<Rightarrow> selectColumns cl m | None \<Rightarrow>
      (case js_match groupBy_re lowerQuery of
         Some m \<Rightarrow>
           if capture m 1 = capture m 4 then groupByQuery cl m else lastResort q lowerQuery cl
       | None \<Rightarrow> lastResort q lowerQuery cl))))))"

section \<open>The generic path: \<^verbatim>\<open>executeViaSupabaseRPC\<close>\<close>

text \<open>
  The inner \<^verbatim>\<open>try\<close>: the RPC call and what it returns or throws. An error of the backend
  is rethrown under the name of its class when its message has \<^verbatim>\<open>function\<close> and
  \<^verbatim>\<open>does not exist\<close>, or \<^verbatim>\<open>syntax error\<close>, and as it is otherwise.
\<close>

definition rpc_attempt :: "json response \<Rightarrow> js_error + json" where
  "rpc_attempt r =
     (case error r of
        Some msg \<Rightarrow>
          if str_includes msg ''function'' \<and> str_includes msg ''does not exist''
          then Inl (Error ''RPC_NOT_AVAILABLE'')
          else if str_includes msg ''syntax error'' then Inl (Error ''RPC_SYNTAX_ERROR'')
          else Inl (Error msg)
      | None \<Rightarrow>
          Inr (case data r of JArr xs \<Rightarrow> JArr xs | d \<Rightarrow> if truthy d then JArr [d] else JArr []))"

text \<open>The test of the inner \<^verbatim>\<open>catch\<close>: does this error lead to the fallback?\<close>

definition falls_back :: "string \<Rightarrow> bool" where
  "falls_back msg =
     (msg = ''RPC_NOT_AVAILABLE'' \<or> msg = ''RPC_SYNTAX_ERROR'' \<or> str_includes msg ''function'' \<or>
      str_includes msg ''does not exist'' \<or> str_includes msg ''syntax error'')"

text \<open>The outer \<^verbatim>\<open>catch\<close>: whatever was thrown leaves under a new message.\<close>

definition wrap_failure :: "js_error + json \<Rightarrow> js_error + json" where
  "wrap_failure res =
     (case res of
        Inl (Error msg) \<Rightarrow> Inl (Error (''Query execution failed: '' @ msg))
      | Inr v \<Rightarrow> Inr v)"

definition executeViaSupabaseRPC :: "string \<Rightarrow> client \<Rightarrow> outcome" where
  "executeViaSupabaseRPC q cl =
     (let cleanedQuery = strip_semicolons (trim q);
          sent = RpcCall ''execute_sql'' cleanedQuery
      in case rpc_attempt (rpc cl ''execute_sql'' cleanedQuery) of
           Inr v \<Rightarrow> (Inr v, [sent])
         | Inl (Error msg) \<Rightarrow>
             if falls_back msg
             then (case parseAndExecuteQuery q cl of (res, calls) \<Rightarrow> (wrap_failure res, sent # calls))
             else (wrap_failure (Inl (Error msg)), [sent]))"

section \<open>The entry point: \<^verbatim>\<open>executeDbQuery\<close>\<close>

definition forbidden :: "string list" where
  "forbidden = [''delete'', ''update'', ''insert'', ''drop'', ''alter'', ''create'', ''truncate'']"

definition not_select_error :: js_error where
  "not_select_error = Error ''SQL handler only supports SELECT statements for read.''"

definition forbidden_error :: js_error where
  "forbidden_error = Error ''SQL contains forbidden keywords for security.''"

definition multiple_error :: js_error where
  "multiple_error = Error ''Multiple SQL statements are not allowed for security.''"

definition no_client_error :: js_error where
  "no_client_error = Error (''Supabase client not available. Please check your Supabase '' @
     ''configuration and call initializeDatabase first.'')"

text \<open>
  \<open>getSupabaseClient()\<close> is the second argument: \<open>None\<close> when no client has been
  initialised.
\<close>

definition executeDbQuery :: "string \<Rightarrow> client option \<Rightarrow> outcome" where
  "executeDbQuery generatedQuery supabaseClient =
     (let trimmedQuery = trim (strip_semicolons (trim generatedQuery));
          lowerCaseQuery = toLowerCase trimmedQuery
      in if \<not> startsWith lowerCaseQuery ''select'' then (Inl not_select_error, [])
         else if list_ex (\<lambda>word. str_includes lowerCaseQuery word) forbidden
         then (Inl forbidden_error, [])
         else if str_includes trimmedQuery '';'' \<and>
                 length (filter (\<lambda>s. trim s \<noteq> []) (split_on CHR '';'' trimmedQuery)) > 1
         then (Inl multiple_error, [])
         else (case supabaseClient of
                 None \<Rightarrow> (Inl no_client_error, [])
               | Some cl \<Rightarrow> executeViaSupabaseRPC trimmedQuery cl))"

section \<open>The vocabulary of the specification\<close>

text \<open>
  The cleaned text of a query: trimmed, the trailing statement terminators stripped,
  trimmed again. It is \<^verbatim>\<open>trimmedQuery\<close> in \<open>executeDbQuery\<close>.
\<close>

definition normalized :: "string \<Rightarrow> string" where
  "normalized q = trim (strip_semicolons (trim q))"

text \<open>\<open>s\<close> starts with \<open>p\<close>, letter case apart.\<close>

definition starts_with_ci :: "string \<Rightarrow> string \<Rightarrow> bool" where
  "starts_with_ci s p = (map lower_char (take (length p) s) = map lower_char p)"

text \<open>
  The reason codes of the specification's validator, and the errors of the source that
  stand for them. No error of the source stands for \<open>EmptyQuery\<close>.
\<close>

datatype rejection = EmptyQuery | NotReadOnly | ForbiddenKeyword | MultipleStatements

definition rejection_of :: "js_error \<Rightarrow> rejection option" where
  "rejection_of e =
     (if e = not_select_error then Some NotReadOnly
      else if e = forbidden_error then Some ForbiddenKeyword
      else if e = multiple_error then Some MultipleStatements
      else None)"

definition verdict :: "outcome \<Rightarrow> rejection option" where
  "verdict out = (case fst out of Inl e \<Rightarrow> rejection_of e | Inr v \<Rightarrow> None)"

text \<open>
  A keyword as a whole word, as \<^verbatim>\<open>\bkeyword\b\<close> finds it: an occurrence with no word
  character right before it and none right after it. \<open>prev\<close> is the character before
  the current position.
\<close>

fun whole_word_from :: "char option \<Rightarrow> string \<Rightarrow> string \<Rightarrow> bool" where
  "whole_word_from prev kw [] = False"
| "whole_word_from prev kw (c # s) =
     (((case prev of None \<Rightarrow> True | Some p \<Rightarrow> \<not> is_word p) \<and> startsWith (c # s) kw \<and>
       (case drop (length kw) (c # s) of [] \<Rightarrow> True | x # xs \<Rightarrow> \<not> is_word x)) \<or>
      whole_word_from (Some c) kw s)"

definition whole_word :: "string \<Rightarrow> string \<Rightarrow> bool" where
  "whole_word kw s = whole_word_from None kw s"

text \<open>
  The shapes that the source lists as supported (it writes them to the warning log when
  no pattern matches), and what it is for a message to enumerate them.
\<close>

definition supported_patterns :: "string list" where
  "supported_patterns =
     [''SELECT * FROM table'', ''SELECT columns FROM table'', ''SELECT COUNT(*) FROM table'',
      ''SELECT * FROM table WHERE column = value'',
      ''SELECT column, COUNT(*) FROM table GROUP BY column'']"

definition enumerates_shapes :: "string \<Rightarrow> bool" where
  "enumerates_shapes msg = list_all (\<lambda>shape. str_includes msg shape) supported_patterns"

text \<open>
  The ordered rule list of the specification: a rule recognises a text or not, and a
  text it recognises gives the call to issue. The first rule that recognises the text
  wins.
\<close>

type_synonym rule = "string \<Rightarrow> (client \<Rightarrow> outcome) option"





section \<open>A backend in memory\<close>

text \<open>
  A backend for concrete runs: tables held in memory, and an RPC that always fails with
  the given message (the function is not installed, or is, and rejects the query).
\<close>

definition mem_client :: "string \<Rightarrow> (string \<times> row list) list \<Rightarrow> client" where
  "mem_client rpc_message tables =
     \<lparr>rpc = (\<lambda>f q. \<lparr>data = JNull, error = Some rpc_message, count = None\<rparr>),
      query = (\<lambda>qb.
        case map_of tables (table qb) of
          None \<Rightarrow>
            \<lparr>data = None,
             error = Some (''relation \"public.'' @ table qb @ ''\" does not exist''),
             count = None\<rparr>
        | Some rows \<Rightarrow>
            (let sel = (case eq_filter qb of
                          None \<Rightarrow> rows
                        | Some (c, v) \<Rightarrow> filter (\<lambda>r. map_of r c = Some v) rows);
                 lim = (case limit qb of None \<Rightarrow> sel | Some n \<Rightarrow> take (nat n) sel);
                 cols = map trim (split_on CHR '','' (columns qb))
             in if head_count qb
                then \<lparr>data = None, error = None, count = Some (length sel)\<rparr>
                else \<lparr>data = Some (if columns qb = ''*'' then lim
                              else map (filter (\<lambda>p. List.member cols (fst p))) lim),
                      error = None, count = None\<rparr>))\<rparr>"

definition shop :: "(string \<times> row list) list" where
  "shop =
     [(''products'',
       [[(''id'', JNum 1), (''category'', JStr ''books''), (''shelf'', JNull)],
        [(''id'', JNum 2), (''category'', JStr ''toys''), (''shelf'', JStr ''null'')],
        [(''id'', JNum 3), (''category'', JStr ''books''), (''shelf'', JStr ''a'')]])]"

text \<open>The message of PostgREST when the RPC function is not installed.\<close>

definition not_installed :: string where
  "not_installed = ''Could not find the function public.execute_sql(sql_query) in the schema cache''"

section \<open>A relational reading of the matcher\<close>

text \<open>
  \<open>matches r st st'\<close>: started in \<open>st\<close>, the pattern \<open>r\<close> can end in \<open>st'\<close>. Every state
  that \<open>run\<close> lists is one of them (\<open>run_matches\<close> below); the proofs about the patterns
  of the source go through this relation.
\<close>

inductive matches :: "regex \<Rightarrow> mstate \<Rightarrow> mstate \<Rightarrow> bool" where
  m_Str: "matches (Str w) (i, w @ t, g) (i + length w, t, g)"
| m_Cls: "p c \<Longrightarrow> matches (Cls p) (i, c # t, g) (Suc i, t, g)"
| m_Seq: "matches a st st' \<Longrightarrow> matches b st' st'' \<Longrightarrow> matches (Seq a b) st st''"
| m_Opt_skip: "matches (Opt a) st st"
| m_Opt_take: "matches a st st' \<Longrightarrow> matches (Opt a) st st'"
| m_Star_stop: "matches (Star a) st st"
| m_Star_step: "matches a st st' \<Longrightarrow> matches (Star a) st' st'' \<Longrightarrow> matches (Star a) st st''"
| m_Plus: "matches a st st' \<Longrightarrow> matches (Star a) st' st'' \<Longrightarrow> matches (Plus a) st st''"
| m_Group:
    "matches a (i, s, g) (j, t, h) \<Longrightarrow>
     matches (Group n a) (i, s, g) (j, t, h(n \<mapsto> take (j - i) s))"
| m_Bol: "matches Bol (0, s, g) (0, s, g)"
| m_Eol: "matches Eol (i, [], g) (i, [], g)"


section \<open>Facts about the string primitives\<close>

lemma trim_Nil_iff: "trim s = [] \<longleftrightarrow> list_all is_space s"
proof -
  have "trim s = [] \<longleftrightarrow> (\<forall>c\<in>set (dropWhile is_space s). is_space c)"
    by (simp add: trim_def dropWhile_eq_Nil_conv)
  also have "\<dots> \<longleftrightarrow> dropWhile is_space s = []"
  proof (cases "dropWhile is_space s")
    case Nil
    then show ?thesis by (simp del: dropWhile_eq_Nil_conv)
  next
    case (Cons a l)
    then have "\<not> is_space a" using hd_dropWhile [of is_space s] by simp
    with Cons show ?thesis by (auto simp del: dropWhile_eq_Nil_conv)
  qed
  also have "\<dots> \<longleftrightarrow> list_all is_space s"
    by (simp add: dropWhile_eq_Nil_conv list_all_iff)
  finally show ?thesis .
qed

lemma split_on_not_Nil: "split_on d s \<noteq> []"
  by (induction s) (auto split: list.splits)

lemma split_on_append: "split_on d (a @ d # b) = split_on d a @ split_on d b"
proof (induction a)
  case Nil
  show ?case by simp
next
  case (Cons c a)
  obtain p ps where "split_on d a = p # ps"
    using split_on_not_Nil [of d a] by (cases "split_on d a") auto
  with Cons show ?case by simp
qed

lemma split_on_nonblank:
  "list_ex (\<lambda>c. \<not> is_space c \<and> c \<noteq> d) s \<Longrightarrow> list_ex (\<lambda>p. trim p \<noteq> []) (split_on d s)"
proof (induction s)
  case Nil
  then show ?case by simp
next
  case (Cons c s)
  obtain p ps where ps: "split_on d s = p # ps"
    using split_on_not_Nil [of d s] by (cases "split_on d s") auto
  show ?case
  proof (cases "c = d")
    case True
    with Cons show ?thesis by simp
  next
    case False
    show ?thesis
    proof (cases "is_space c")
      case True
      with Cons False ps have "list_ex (\<lambda>p. trim p \<noteq> []) (p # ps)" by simp
      then show ?thesis using False ps by (auto simp: trim_Nil_iff)
    next
      case nsp: False
      then show ?thesis using False ps by (simp add: trim_Nil_iff)
    qed
  qed
qed

lemma str_includes_iff: "str_includes s sub \<longleftrightarrow> (\<exists>a b. s = a @ sub @ b)"
proof (induction s)
  case Nil
  show ?case by auto
next
  case (Cons c s)
  have pre: "startsWith (c # s) sub \<longleftrightarrow> (\<exists>b. c # s = sub @ b)"
    unfolding startsWith_def
    by (metis append_eq_conv_conj)
  show ?case
  proof
    assume "str_includes (c # s) sub"
    then consider "startsWith (c # s) sub" | "str_includes s sub" by auto
    then show "\<exists>a b. c # s = a @ sub @ b"
    proof cases
      case 1
      then obtain b where "c # s = sub @ b" using pre by blast
      then have "c # s = [] @ sub @ b" by simp
      then show ?thesis by blast
    next
      case 2
      then obtain a b where "s = a @ sub @ b" using Cons by blast
      then have "c # s = (c # a) @ sub @ b" by simp
      then show ?thesis by blast
    qed
  next
    assume "\<exists>a b. c # s = a @ sub @ b"
    then obtain a b where ab: "c # s = a @ sub @ b" by blast
    show "str_includes (c # s) sub"
    proof (cases a)
      case Nil
      with ab pre have "startsWith (c # s) sub" by auto
      then show ?thesis by simp
    next
      case (Cons x a')
      with ab have "s = a' @ sub @ b" by simp
      then have "str_includes s sub" using Cons.IH by blast
      then show ?thesis by simp
    qed
  qed
qed

lemma startsWith_lower: "startsWith (toLowerCase s) ''select'' = starts_with_ci s ''select''"
proof -
  have "map lower_char ''select'' = ''select''"
    by code_simp
  then show ?thesis
    by (simp add: startsWith_def toLowerCase_def starts_with_ci_def take_map)
qed

lemma select_head:
  assumes "starts_with_ci s ''select''"
  shows "\<exists>c t. s = c # t \<and> \<not> is_space c \<and> c \<noteq> CHR '';''"
proof (cases s)
  case Nil
  with assms show ?thesis by (simp add: starts_with_ci_def)
next
  case (Cons c t)
  with assms have low: "lower_char c = lower_char CHR ''s''"
    by (simp add: starts_with_ci_def)
  have "lower_char CHR ''s'' = CHR ''s''" by code_simp
  with low have s: "lower_char c = CHR ''s''" by simp
  have "c \<noteq> CHR '';''"
  proof
    assume "c = CHR '';''"
    moreover have "lower_char CHR '';'' \<noteq> CHR ''s''" by code_simp
    ultimately show False using s by simp
  qed
  moreover have "\<not> is_space c"
  proof
    assume "is_space c"
    then consider "c = CHR 0x09" | "c = CHR 0x0A" | "c = CHR 0x0B" | "c = CHR 0x0C"
      | "c = CHR 0x0D" | "c = CHR 0x20" | "c = CHR 0xA0"
      by (auto simp: is_space_def)
    then show False
    proof cases
      case 1 moreover have "lower_char (CHR 0x09) \<noteq> CHR ''s''" by code_simp
      ultimately show ?thesis using s by simp
    next
      case 2 moreover have "lower_char (CHR 0x0A) \<noteq> CHR ''s''" by code_simp
      ultimately show ?thesis using s by simp
    next
      case 3 moreover have "lower_char (CHR 0x0B) \<noteq> CHR ''s''" by code_simp
      ultimately show ?thesis using s by simp
    next
      case 4 moreover have "lower_char (CHR 0x0C) \<noteq> CHR ''s''" by code_simp
      ultimately show ?thesis using s by simp
    next
      case 5 moreover have "lower_char (CHR 0x0D) \<noteq> CHR ''s''" by code_simp
      ultimately show ?thesis using s by simp
    next
      case 6 moreover have "lower_char (CHR 0x20) \<noteq> CHR ''s''" by code_simp
      ultimately show ?thesis using s by simp
    next
      case 7 moreover have "lower_char (CHR 0xA0) \<noteq> CHR ''s''" by code_simp
      ultimately show ?thesis using s by simp
    qed
  qed
  ultimately show ?thesis using Cons by simp
qed

section \<open>The validation gate\<close>

text \<open>
  Claim C6. When the cleaned text of the input does not start with \<^verbatim>\<open>select\<close>, letter case
  apart, \<open>executeDbQuery\<close> rejects it as not read-only and calls the backend not at all.
  The check comes first: \<^verbatim>\<open>DROP TABLE users\<close>, which also holds a forbidden keyword, is
  rejected as not read-only, as the instance below shows.
\<close>

theorem not_select_rejected:
  assumes "\<not> starts_with_ci (normalized q) ''select''"
  shows "verdict (executeDbQuery q cl) = Some NotReadOnly \<and> snd (executeDbQuery q cl) = []"
  using assms
  by (simp add: executeDbQuery_def verdict_def rejection_of_def normalized_def
      startsWith_lower Let_def)

theorem not_select_rejected_witness:
  "\<not> starts_with_ci (normalized ''DROP TABLE users'') ''select'' \<and>
   verdict (executeDbQuery ''DROP TABLE users'' (Some (mem_client not_installed shop))) =
     Some NotReadOnly \<and>
   snd (executeDbQuery ''DROP TABLE users'' (Some (mem_client not_installed shop))) = [] \<and>
   list_ex (\<lambda>w. str_includes (toLowerCase (normalized ''DROP TABLE users'')) w) forbidden"
proof -
  have h: "\<not> starts_with_ci (normalized ''DROP TABLE users'') ''select''"
    by code_simp
  have k: "list_ex (\<lambda>w. str_includes (toLowerCase (normalized ''DROP TABLE users'')) w) forbidden"
    by code_simp
  show ?thesis
    using h k not_select_rejected [OF h, of "Some (mem_client not_installed shop)"] by simp
qed

text \<open>
  Claim C5, as amended. An input that is empty after trimming is rejected without a
  backend call, and the rejection is the one for a text that is not read-only: the
  source has no separate rejection for an empty query.
\<close>

theorem empty_query_rejected:
  assumes "trim q = []"
  shows "verdict (executeDbQuery q cl) = Some NotReadOnly \<and> snd (executeDbQuery q cl) = []"
proof -
  have "strip_semicolons (trim q) = []"
    by (simp only: assms) (simp add: strip_semicolons_def)
  then have "trim (strip_semicolons (trim q)) = []"
    by (simp only:) (simp add: trim_def)
  then show ?thesis
    by (simp add: executeDbQuery_def verdict_def rejection_of_def toLowerCase_def
        startsWith_def Let_def)
qed

theorem empty_query_rejected_witness:
  "trim [CHR 0x20, CHR 0x09, CHR 0x0A] = [] \<and>
   verdict (executeDbQuery [CHR 0x20, CHR 0x09, CHR 0x0A] (Some (mem_client not_installed shop)))
     = Some NotReadOnly \<and>
   snd (executeDbQuery [CHR 0x20, CHR 0x09, CHR 0x0A] (Some (mem_client not_installed shop))) = []"
proof -
  have h: "trim [CHR 0x20, CHR 0x09, CHR 0x0A] = []"
    by code_simp
  show ?thesis
    using h empty_query_rejected [OF h, of "Some (mem_client not_installed shop)"] by simp
qed

text \<open>
  Claim C5 as stated fails: the empty string and a string of spaces are rejected as
  \<open>NotReadOnly\<close>, not as \<open>EmptyQuery\<close>.
\<close>

theorem empty_query_counterexample:
  "verdict (executeDbQuery [] (Some (mem_client not_installed shop))) = Some NotReadOnly \<and>
   verdict (executeDbQuery [] (Some (mem_client not_installed shop))) \<noteq> Some EmptyQuery \<and>
   verdict (executeDbQuery ''   '' (Some (mem_client not_installed shop))) = Some NotReadOnly"
  by (simp add: executeDbQuery_def verdict_def rejection_of_def trim_def strip_semicolons_def
      toLowerCase_def startsWith_def is_space_def)

text \<open>
  Claim C7, as amended. When the cleaned text passes the two earlier checks (it starts
  with \<^verbatim>\<open>select\<close> and holds no forbidden keyword) and holds a terminator followed by
  content other than white space and terminators, \<open>executeDbQuery\<close> rejects it for
  multiple statements and calls the backend not at all.
\<close>

theorem multiple_statements_rejected:
  assumes sel: "starts_with_ci (normalized q) ''select''"
    and ok: "\<not> list_ex (\<lambda>w. str_includes (toLowerCase (normalized q)) w) forbidden"
    and two: "normalized q = a @ CHR '';'' # b"
    and more: "list_ex (\<lambda>c. \<not> is_space c \<and> c \<noteq> CHR '';'') b"
  shows "verdict (executeDbQuery q cl) = Some MultipleStatements \<and> snd (executeDbQuery q cl) = []"
proof -
  let ?t = "normalized q"
  let ?nonblank = "\<lambda>p. trim p \<noteq> []"
  have inc: "str_includes ?t '';''"
    using two by (auto simp: str_includes_iff)
  obtain c t where ct: "?t = c # t" "\<not> is_space c" "c \<noteq> CHR '';''"
    using select_head [OF sel] by blast
  from ct two obtain a' where a: "a = c # a'"
    by (cases a) auto
  then have "list_ex (\<lambda>c. \<not> is_space c \<and> c \<noteq> CHR '';'') a"
    using ct by simp
  then have fa: "filter ?nonblank (split_on CHR '';'' a) \<noteq> []"
    using split_on_nonblank [of "CHR '';''" a] by (simp add: filter_empty_conv list_ex_iff)
  have fb: "filter ?nonblank (split_on CHR '';'' b) \<noteq> []"
    using split_on_nonblank [OF more] by (simp add: filter_empty_conv list_ex_iff)
  have "length (filter ?nonblank (split_on CHR '';'' ?t)) =
      length (filter ?nonblank (split_on CHR '';'' a)) +
      length (filter ?nonblank (split_on CHR '';'' b))"
    by (simp add: two split_on_append)
  moreover have "0 < length (filter ?nonblank (split_on CHR '';'' a))"
    using fa by simp
  moreover have "0 < length (filter ?nonblank (split_on CHR '';'' b))"
    using fb by simp
  ultimately have many: "1 < length (filter ?nonblank (split_on CHR '';'' ?t))"
    by linarith
  have "executeDbQuery q cl = (Inl multiple_error, [])"
    using sel ok inc many
    by (simp add: executeDbQuery_def normalized_def startsWith_lower Let_def)
  then show ?thesis
    by (simp add: verdict_def rejection_of_def multiple_error_def forbidden_error_def
        not_select_error_def)
qed

theorem multiple_statements_rejected_witness:
  "starts_with_ci (normalized ''select 1; select 2;'') ''select'' \<and>
   \<not> list_ex (\<lambda>w. str_includes (toLowerCase (normalized ''select 1; select 2;'')) w) forbidden \<and>
   normalized ''select 1; select 2;'' = ''select 1'' @ CHR '';'' # '' select 2'' \<and>
   list_ex (\<lambda>c. \<not> is_space c \<and> c \<noteq> CHR '';'') '' select 2'' \<and>
   verdict (executeDbQuery ''select 1; select 2;'' (Some (mem_client not_installed shop)))
     = Some MultipleStatements \<and>
   snd (executeDbQuery ''select 1; select 2;'' (Some (mem_client not_installed shop))) = []"
proof -
  have 1: "starts_with_ci (normalized ''select 1; select 2;'') ''select''"
    by code_simp
  have 2: "\<not> list_ex (\<lambda>w. str_includes (toLowerCase (normalized ''select 1; select 2;'')) w) forbidden"
    by code_simp
  have 3: "normalized ''select 1; select 2;'' = ''select 1'' @ CHR '';'' # '' select 2''"
    by code_simp
  have 4: "list_ex (\<lambda>c. \<not> is_space c \<and> c \<noteq> CHR '';'') '' select 2''"
    by code_simp
  show ?thesis
    using 1 2 3 4
      multiple_statements_rejected [OF 1 2 3 4, of "Some (mem_client not_installed shop)"]
    by simp
qed

text \<open>
  Claim C7 as stated fails: two statements that do not start with \<^verbatim>\<open>select\<close> are rejected
  as not read-only, and a second statement with a forbidden keyword is rejected for the
  keyword; both checks come before the one for multiple statements. And a terminator
  followed by nothing but another terminator is let through to the backend.
\<close>

theorem multiple_statements_counterexample:
  "verdict (executeDbQuery ''DROP TABLE a; DROP TABLE b'' (Some (mem_client not_installed shop)))
     = Some NotReadOnly \<and>
   verdict (executeDbQuery ''select 1; delete from t'' (Some (mem_client not_installed shop)))
     = Some ForbiddenKeyword \<and>
   normalized ''DROP TABLE a; DROP TABLE b'' = ''DROP TABLE a'' @ CHR '';'' # '' DROP TABLE b'' \<and>
   normalized ''select 1; delete from t'' = ''select 1'' @ CHR '';'' # '' delete from t'' \<and>
   normalized ''select 1;; ;'' = ''select 1'' @ CHR '';'' # '';'' \<and>
   verdict (executeDbQuery ''select 1;; ;'' (Some (mem_client not_installed shop))) = None \<and>
   snd (executeDbQuery ''select 1;; ;'' (Some (mem_client not_installed shop))) =
     [RpcCall ''execute_sql'' ''select 1'']"
  by code_simp

text \<open>
  A keyword that occurs as a whole word is a keyword that the text contains, so the
  source rejects every text that claim C1 wants rejected.
\<close>

lemma whole_word_from_includes: "whole_word_from prev kw s \<Longrightarrow> str_includes s kw"
  by (induction s arbitrary: prev) auto

lemma whole_word_rejected:
  assumes "starts_with_ci (normalized q) ''select''"
    and "list_ex (\<lambda>w. whole_word w (toLowerCase (normalized q))) forbidden"
  shows "verdict (executeDbQuery q cl) = Some ForbiddenKeyword \<and> snd (executeDbQuery q cl) = []"
proof -
  from assms(2) have "list_ex (\<lambda>w. str_includes (toLowerCase (normalized q)) w) forbidden"
    by (auto simp: list_ex_iff whole_word_def dest: whole_word_from_includes)
  then have "executeDbQuery q cl = (Inl forbidden_error, [])"
    using assms(1) by (simp add: executeDbQuery_def normalized_def startsWith_lower Let_def)
  then show ?thesis
    by (simp add: verdict_def rejection_of_def forbidden_error_def not_select_error_def)
qed

text \<open>
  Claim C1. The claim asks for a whole-word match of the mutating keywords, so that a
  keyword inside a longer identifier is let through. The source tests containment: the
  query below selects the column \<^verbatim>\<open>created_at\<close> of the repository's own schema, holds
  none of the keywords as a whole word, and is rejected for a forbidden keyword.
\<close>

theorem created_at_rejected:
  "verdict (executeDbQuery ''SELECT id, created_at FROM users''
      (Some (mem_client not_installed shop))) = Some ForbiddenKeyword \<and>
   snd (executeDbQuery ''SELECT id, created_at FROM users''
      (Some (mem_client not_installed shop))) = [] \<and>
   starts_with_ci (normalized ''SELECT id, created_at FROM users'') ''select'' \<and>
   list_all (\<lambda>w. \<not> whole_word w (toLowerCase (normalized ''SELECT id, created_at FROM users'')))
     forbidden"
  by code_simp

section \<open>The dispatcher and the order of the recognizers\<close>

lemma await_rows_calls: "snd (await_rows cl qb) = [QueryCall qb]"
  by (simp add: await_rows_def Let_def)

lemma parse_calls: "length (snd (parseAndExecuteQuery q cl)) \<le> 1"
  by (simp add: parseAndExecuteQuery_def Let_def lastResort_def simpleSelect_def
      countQuery_def whereString_def whereNum_def selectColumns_def groupByQuery_def
      basicSelect_def unsupported_def await_rows_calls split: option.splits)






lemma dispatch_on_failure:
  assumes "error (rpc cl ''execute_sql'' (strip_semicolons (trim q))) = Some msg"
  shows "(\<not> falls_back msg \<longrightarrow>
            executeViaSupabaseRPC q cl =
              (Inl (Error (''Query execution failed: '' @ msg)),
               [RpcCall ''execute_sql'' (strip_semicolons (trim q))])) \<and>
         (falls_back msg \<longrightarrow>
            executeViaSupabaseRPC q cl =
              (wrap_failure (fst (parseAndExecuteQuery q cl)),
               RpcCall ''execute_sql'' (strip_semicolons (trim q)) #
                 snd (parseAndExecuteQuery q cl)) \<and>
            length (snd (parseAndExecuteQuery q cl)) \<le> 1)"
proof -
  have a: "str_includes msg ''function'' \<and> str_includes msg ''does not exist'' \<Longrightarrow> falls_back msg"
    by (simp add: falls_back_def)
  have b: "str_includes msg ''syntax error'' \<Longrightarrow> falls_back msg"
    by (simp add: falls_back_def)
  have m1: "falls_back ''RPC_NOT_AVAILABLE''" by (simp add: falls_back_def)
  have m2: "falls_back ''RPC_SYNTAX_ERROR''" by (simp add: falls_back_def)
  show ?thesis
    using assms a b m1 m2 parse_calls [of q cl]
    by (auto simp: executeViaSupabaseRPC_def rpc_attempt_def wrap_failure_def Let_def
        split: prod.splits)
qed




text \<open>
  Claim C4, as amended. When no recognizer matches the lower-cased text, the fallback
  throws an error whose message names the query and advises installing the RPC function
  or checking the syntax, and the backend is not called. Reached through the dispatcher
  after an RPC failure that falls back, the caller gets that message behind the prefix
  \<^verbatim>\<open>Query execution failed: \<close>.
\<close>

theorem unsupported_pattern_message:
  assumes "js_match simpleSelect_re (trim (toLowerCase q)) = None"
    and "js_match count_re (trim (toLowerCase q)) = None"
    and "js_match whereString_re (trim (toLowerCase q)) = None"
    and "js_match whereNum_re (trim (toLowerCase q)) = None"
    and "js_match selectColumns_re (trim (toLowerCase q)) = None"
    and "\<forall>m. js_match groupBy_re (trim (toLowerCase q)) = Some m \<longrightarrow> capture m 1 \<noteq> capture m 4"
    and "js_match basicSelect_re (trim (toLowerCase q)) = None"
  shows "parseAndExecuteQuery q cl =
           (Inl (Error (''Query pattern not supported via Supabase client. Query: \"'' @ q @
              ''\". Install RPC function for complex queries or check query syntax.'')), []) \<and>
         (\<forall>msg. error (rpc cl ''execute_sql'' (strip_semicolons (trim q))) = Some msg \<and>
              falls_back msg \<longrightarrow>
            executeViaSupabaseRPC q cl =
              (Inl (Error (''Query execution failed: Query pattern not supported via Supabase '' @
                 ''client. Query: \"'' @ q @
                 ''\". Install RPC function for complex queries or check query syntax.'')),
               [RpcCall ''execute_sql'' (strip_semicolons (trim q))]))"
proof -
  have p: "parseAndExecuteQuery q cl = unsupported q"
    using assms
    by (simp add: parseAndExecuteQuery_def lastResort_def Let_def split: option.splits)
  have "executeViaSupabaseRPC q cl =
      (wrap_failure (fst (unsupported q)), [RpcCall ''execute_sql'' (strip_semicolons (trim q))])"
    if "error (rpc cl ''execute_sql'' (strip_semicolons (trim q))) = Some msg" "falls_back msg"
    for msg
    using dispatch_on_failure [OF that(1)] that(2) p by (simp add: unsupported_def)
  then show ?thesis
    using p by (simp add: unsupported_def wrap_failure_def)
qed

theorem unsupported_pattern_message_witness:
  "js_match simpleSelect_re (trim (toLowerCase ''SELECT 1'')) = None \<and>
   js_match count_re (trim (toLowerCase ''SELECT 1'')) = None \<and>
   js_match whereString_re (trim (toLowerCase ''SELECT 1'')) = None \<and>
   js_match whereNum_re (trim (toLowerCase ''SELECT 1'')) = None \<and>
   js_match selectColumns_re (trim (toLowerCase ''SELECT 1'')) = None \<and>
   js_match groupBy_re (trim (toLowerCase ''SELECT 1'')) = None \<and>
   js_match basicSelect_re (trim (toLowerCase ''SELECT 1'')) = None \<and>
   parseAndExecuteQuery ''SELECT 1'' (mem_client not_installed shop) =
     (Inl (Error (''Query pattern not supported via Supabase client. Query: \"SELECT 1\". '' @
        ''Install RPC function for complex queries or check query syntax.'')), [])"
proof -
  let ?lq = "trim (toLowerCase ''SELECT 1'')"
  have 1: "js_match simpleSelect_re ?lq = None" by code_simp
  have 2: "js_match count_re ?lq = None" by code_simp
  have 3: "js_match whereString_re ?lq = None" by code_simp
  have 4: "js_match whereNum_re ?lq = None" by code_simp
  have 5: "js_match selectColumns_re ?lq = None" by code_simp
  have 6: "js_match groupBy_re ?lq = None" by code_simp
  then have g6: "\<forall>m. js_match groupBy_re ?lq = Some m \<longrightarrow> capture m 1 \<noteq> capture m 4" by simp
  have 7: "js_match basicSelect_re ?lq = None" by code_simp
  show ?thesis
    using 1 2 3 4 5 6 7
      unsupported_pattern_message [OF 1 2 3 4 5 g6 7, of "mem_client not_installed shop"]
    by simp
qed

text \<open>
  Claim C4 as stated fails: the message that reaches the caller holds none of the
  supported shapes.
\<close>

theorem unsupported_pattern_counterexample:
  "fst (executeDbQuery ''SELECT 1'' (Some (mem_client not_installed shop))) =
     Inl (Error (''Query execution failed: Query pattern not supported via Supabase client. '' @
       ''Query: \"SELECT 1\". Install RPC function for complex queries or check query syntax.'')) \<and>
   \<not> enumerates_shapes (''Query execution failed: Query pattern not supported via Supabase '' @
       ''client. Query: \"SELECT 1\". Install RPC function for complex queries or check query '' @
       ''syntax.'') \<and>
   list_all (\<lambda>shape. \<not> str_includes (''Query execution failed: Query pattern not supported '' @
       ''via Supabase client. Query: \"SELECT 1\". Install RPC function for complex queries or '' @
       ''check query syntax.'') shape) supported_patterns"
  by code_simp

section \<open>Facts about the matcher\<close>

lemma run_matches: "st' \<in> set (run r st) \<Longrightarrow> matches r st st'"
proof (induction r st arbitrary: st' rule: run.induct)
  case (1 w i s g)
  then have "take (length w) s = w" and st': "st' = (i + length w, drop (length w) s, g)"
    by (auto simp: run.simps(1) split: if_splits)
  then have "s = w @ drop (length w) s"
    by (metis append_take_drop_id)
  then show ?case
    using st' m_Str [of w i "drop (length w) s" g] by simp
next
  case (2 p i s g)
  then show ?case
    by (auto simp: run.simps(2) split: list.splits if_splits intro: m_Cls)
next
  case (3 a b st)
  from "3.prems" have "\<exists>x\<in>set (run a st). st' \<in> set (run b x)"
    by (simp add: run.simps(3))
  then obtain x where x: "x \<in> set (run a st)" "st' \<in> set (run b x)"
    by blast
  show ?case
    by (rule m_Seq [OF "3.IH"(1) [OF x(1)] "3.IH"(2) [OF x]])
next
  case (4 a i s g)
  then show ?case
    by (auto simp: run.simps(4) intro: m_Opt_skip m_Opt_take)
next
  case (5 a i s g)
  from "5.prems" have "st' \<in> set (concat (map
      (\<lambda>(j, t, h). if length t < length s then run (Star a) (j, t, h) else [])
      (run a (i, s, g))) @ [(i, s, g)])"
    by (subst (asm) run.simps(5)) simp
  then consider "st' = (i, s, g)"
    | j t h where "(j, t, h) \<in> set (run a (i, s, g))" "length t < length s"
        "st' \<in> set (run (Star a) (j, t, h))"
    by (auto split: if_splits)
  then show ?case
  proof cases
    case 1
    then show ?thesis by (simp add: m_Star_stop)
  next
    case 2
    from "5.IH"(1) [OF 2(1)] have "matches a (i, s, g) (j, t, h)" .
    moreover from "5.IH"(2) [OF 2(1) refl refl 2(2) 2(3)] have "matches (Star a) (j, t, h) st'" .
    ultimately show ?thesis by (rule m_Star_step)
  qed
next
  case (6 a st)
  from "6.prems" have "\<exists>x\<in>set (run a st). st' \<in> set (run (Star a) x)"
    by (simp add: run.simps(6))
  then obtain x where x: "x \<in> set (run a st)" "st' \<in> set (run (Star a) x)"
    by blast
  show ?case
    by (rule m_Plus [OF "6.IH"(1) [OF x(1)] "6.IH"(2) [OF x]])
next
  case (7 n a i s g)
  from "7.prems" have "\<exists>x\<in>set (run a (i, s, g)).
      st' = (case x of (j, t, h) \<Rightarrow> (j, t, h(n \<mapsto> take (j - i) s)))"
    by (simp add: run.simps(7) image_iff)
  then obtain j t h where x: "(j, t, h) \<in> set (run a (i, s, g))"
      "st' = (j, t, h(n \<mapsto> take (j - i) s))"
    by (auto split: prod.splits)
  show ?case
    unfolding x(2) by (rule m_Group [OF "7.IH" [OF x(1)]])
next
  case (8 i s g)
  then show ?case
    by (auto simp: run.simps(8) split: if_splits intro: m_Bol)
next
  case (9 i s g)
  then show ?case
    by (auto simp: run.simps(9) split: if_splits intro: m_Eol)
qed

inductive_cases StrE: "matches (Str w) (i, s, g) st'"
inductive_cases ClsE: "matches (Cls p) (i, s, g) st'"
inductive_cases SeqE0: "matches (Seq a b) st st''"
inductive_cases OptE: "matches (Opt a) st st'"
inductive_cases PlusE0: "matches (Plus a) st st'"
inductive_cases GroupE: "matches (Group n a) (i, s, g) st'"
inductive_cases BolE: "matches Bol (i, s, g) st'"
inductive_cases EolE: "matches Eol (i, s, g) st'"

lemma SeqE:
  assumes "matches (Seq a b) st st''"
  obtains i s g where "matches a st (i, s, g)" "matches b (i, s, g) st''"
proof -
  from assms obtain st' where "matches a st st'" "matches b st' st''"
    by (rule SeqE0)
  then show ?thesis
    by (cases st') (auto intro: that)
qed

lemma star_class:
  "matches r st st' \<Longrightarrow> r = Star (Cls p) \<Longrightarrow>
   \<exists>u. fst (snd st) = u @ fst (snd st') \<and> list_all p u \<and> fst st' = fst st + length u \<and>
       snd (snd st') = snd (snd st)"
proof (induction rule: matches.induct)
  case (m_Star_stop a st)
  then show ?case by simp
next
  case (m_Star_step a st st' st'')
  then obtain u where u: "fst (snd st') = u @ fst (snd st'')" "list_all p u"
      "fst st'' = fst st' + length u" "snd (snd st'') = snd (snd st')"
    by auto
  from m_Star_step.hyps(1) m_Star_step.prems
  obtain c where "fst (snd st) = c # fst (snd st')" "p c" "fst st' = Suc (fst st)"
      "snd (snd st') = snd (snd st)"
    by (cases st; cases st') (auto elim: ClsE)
  with u have "fst (snd st) = (c # u) @ fst (snd st'')" "list_all p (c # u)"
      "fst st'' = fst st + length (c # u)" "snd (snd st'') = snd (snd st)"
    by simp_all
  then show ?case by blast
qed simp_all

lemma StarClsE:
  assumes "matches (Star (Cls p)) (i, s, g) st'"
  obtains u t where "list_all p u" "s = u @ t" "st' = (i + length u, t, g)"
  using star_class [OF assms refl] by (cases st') auto

lemma PlusClsE:
  assumes "matches (Plus (Cls p)) (i, s, g) st'"
  obtains u t where "u \<noteq> []" "list_all p u" "s = u @ t" "st' = (i + length u, t, g)"
proof -
  from assms obtain st where a: "matches (Cls p) (i, s, g) st" and b: "matches (Star (Cls p)) st st'"
    by (rule PlusE0)
  from a obtain c t where c: "s = c # t" "p c" "st = (Suc i, t, g)"
    by (auto elim: ClsE)
  from b c obtain u t' where u: "list_all p u" "t = u @ t'" "st' = (Suc i + length u, t', g)"
    by (auto elim: StarClsE)
  show ?thesis
    by (rule that [of "c # u" t']) (use c u in simp_all)
qed

lemma search_Some:
  "search r i s = Some m \<Longrightarrow>
   \<exists>k j t. k \<le> length s \<and> matches r (i + k, drop k s, Map.empty) (j, t, m)"
proof (induction s arbitrary: i)
  case Nil
  then obtain j t where "(j, t, m) \<in> set (run r (i, [], Map.empty))"
    by (auto split: list.splits)
  then have "matches r (i + 0, drop 0 [], Map.empty) (j, t, m)"
    by (simp add: run_matches)
  then show ?case by blast
next
  case (Cons c s)
  show ?case
  proof (cases "run r (i, c # s, Map.empty)")
    case Nil
    with Cons.prems have "search r (Suc i) s = Some m" by simp
    from Cons.IH [OF this] obtain k j t where "k \<le> length s"
        "matches r (Suc i + k, drop k s, Map.empty) (j, t, m)" by blast
    then have "Suc k \<le> length (c # s)"
        "matches r (i + Suc k, drop (Suc k) (c # s), Map.empty) (j, t, m)" by simp_all
    then show ?thesis by blast
  next
    case (Cons st sts)
    with Cons.prems obtain j t where "st = (j, t, m)"
      by (cases st) auto
    with Cons have "(j, t, m) \<in> set (run r (i, c # s, Map.empty))" by simp
    then have "matches r (i + 0, drop 0 (c # s), Map.empty) (j, t, m)"
      by (simp add: run_matches)
    then show ?thesis by blast
  qed
qed

lemma anchored_match:
  assumes "js_match (Seq Bol r) s = Some m"
  obtains j t where "matches r (0, s, Map.empty) (j, t, m)"
proof -
  from assms obtain k j t where "matches (Seq Bol r) (k, drop k s, Map.empty) (j, t, m)"
    using search_Some [of "Seq Bol r" 0 s m] by (auto simp: js_match_def)
  then show ?thesis
    by (auto elim!: SeqE BolE intro: that)
qed

lemmas pattern_elims = SeqE StrE PlusClsE StarClsE GroupE EolE


section \<open>What a match of each pattern says about the text\<close>



lemma skip_class:
  "list_all P ws \<Longrightarrow> \<not> P c \<Longrightarrow> dropWhile P (ws @ c # r) = c # r"
  by (simp add: list_all_iff dropWhile_append3)



text \<open>
  The first word of a text after \<^verbatim>\<open>select\<close> and the white space after it tells the
  patterns apart.
\<close>

lemma star_prefix:
  assumes "matches (Seq (Str ''select'') (Seq (Plus (Cls is_space)) (Seq (Str ''*'') rest)))
     (0, s, g) st"
  shows "\<exists>r. dropWhile is_space (drop 6 s) = CHR ''*'' # r"
  using assms
  by (elim SeqE StrE PlusClsE) (auto simp: skip_class is_space_def)

lemma simpleSelect_prefix:
  assumes "js_match simpleSelect_re s = Some m"
  shows "\<exists>r. dropWhile is_space (drop 6 s) = CHR ''*'' # r"
  using assms unfolding simpleSelect_re_def seqs.simps
  by (elim anchored_match) (rule star_prefix)



lemma count_prefix:
  assumes "js_match count_re s = Some m"
  shows "\<exists>r. dropWhile is_space (drop 6 s) = ''count(*)'' @ r"
proof -
  from assms obtain j t rest where
    "matches (Seq (Str ''select'') (Seq (Plus (Cls is_space)) (Seq (Str ''count(*)'') rest)))
       (0, s, Map.empty) (j, t, m)"
    unfolding count_re_def seqs.simps by (elim anchored_match)
  then show ?thesis
    by (elim SeqE StrE PlusClsE) (auto simp: skip_class is_space_def)
qed

lemma count_captures:
  assumes "js_match count_re s = Some m"
  shows "(\<exists>tbl. m 2 = Some tbl \<and> tbl \<noteq> [] \<and> list_all is_word tbl) \<and>
         (m 1 = None \<or> (\<exists>a. m 1 = Some a \<and> a \<noteq> [] \<and> list_all is_word a))"
proof -
  from assms obtain j t where
    "matches (seqs [Str ''select'', Plus (Cls is_space), Str ''count(*)'',
     Star (Cls is_space),
     Opt (seqs [Str ''as'', Plus (Cls is_space), Group 1 (Plus (Cls is_word)),
       Plus (Cls is_space)]),
     Str ''from'', Plus (Cls is_space), Group 2 (Plus (Cls is_word)),
     Opt (seqs [Star (Cls is_space), Str '';'']), Eol]) (0, s, Map.empty) (j, t, m)"
    by (auto simp: count_re_def elim: anchored_match)
  then show ?thesis
    unfolding seqs.simps
    by (elim pattern_elims OptE) auto
qed














text \<open>No text matches two of the anchored patterns that the claims below are about.\<close>

lemma count_not_simpleSelect:
  assumes "js_match count_re s = Some m"
  shows "js_match simpleSelect_re s = None"
proof (cases "js_match simpleSelect_re s")
  case None
  then show ?thesis .
next
  case (Some m')
  from simpleSelect_prefix [OF Some] count_prefix [OF assms]
  show ?thesis by auto
qed




lemma basicSelect_captures:
  assumes "js_match basicSelect_re s = Some m"
  shows "\<exists>tbl. m 1 = Some tbl \<and> tbl \<noteq> [] \<and> list_all is_word tbl"
proof -
  from assms obtain k j t where
    "matches basicSelect_re (k, drop k s, Map.empty) (j, t, m)"
    using search_Some [of basicSelect_re 0 s m] by (auto simp: js_match_def)
  then show ?thesis
    unfolding basicSelect_re_def seqs.simps
    by (elim pattern_elims) auto
qed


section \<open>The count-all and the loose select-all recognizers\<close>

lemma count_branch:
  assumes "js_match count_re (trim (toLowerCase q)) = Some m"
  shows "parseAndExecuteQuery q cl = countQuery cl m"
  using assms count_not_simpleSelect [OF assms]
  by (simp add: parseAndExecuteQuery_def Let_def)

text \<open>
  Claim C8. When the lower-cased text matches the count-all pattern
  \<^verbatim>\<open>select count(*) [as alias] from table\<close>, the fallback makes one backend call, the count
  of that table (the query builder with \<^verbatim>\<open>{ count: 'exact', head: true }\<close>, no RPC), and,
  when the backend reports no error, returns one row whose only field is named by the
  alias, or \<^verbatim>\<open>count\<close> without one, and holds the count.
\<close>

theorem count_all_translated:
  assumes "js_match count_re (trim (toLowerCase q)) = Some m"
  shows "\<exists>tbl. m 2 = Some tbl \<and> tbl \<noteq> [] \<and>
           parseAndExecuteQuery q cl =
             (case error (query cl \<lparr>table = tbl, columns = ''*'', head_count = True,
                     eq_filter = None, limit = None\<rparr>) of
                Some msg \<Rightarrow> Inl (Error msg)
              | None \<Rightarrow>
                  Inr (JArr [JObj [(case m 1 of None \<Rightarrow> ''count'' | Some a \<Rightarrow> a,
                    case count (query cl \<lparr>table = tbl, columns = ''*'', head_count = True,
                           eq_filter = None, limit = None\<rparr>) of
                      Some n \<Rightarrow> JNum (int n)
                    | None \<Rightarrow> JNull)]]),
              [QueryCall \<lparr>table = tbl, columns = ''*'', head_count = True,
                 eq_filter = None, limit = None\<rparr>])"
proof -
  from count_captures [OF assms] obtain tbl where
    tbl: "m 2 = Some tbl" "tbl \<noteq> []"
    and al: "m 1 = None \<or> (\<exists>a. m 1 = Some a \<and> a \<noteq> [])"
    by blast
  from al have a: "alias_or_count m 1 = (case m 1 of None \<Rightarrow> ''count'' | Some a \<Rightarrow> a)"
    by (auto simp: alias_or_count_def)
  show ?thesis
    using tbl
    by (simp add: count_branch [OF assms] countQuery_def a capture_def from_select_def Let_def
        del: One_nat_def)
qed

theorem count_all_translated_witness:
  "js_match count_re (trim (toLowerCase ''SELECT COUNT(*) as total FROM products'')) \<noteq> None \<and>
   parseAndExecuteQuery ''SELECT COUNT(*) as total FROM products'' (mem_client not_installed shop) =
     (Inr (JArr [JObj [(''total'', JNum 3)]]),
      [QueryCall \<lparr>table = ''products'', columns = ''*'', head_count = True,
         eq_filter = None, limit = None\<rparr>]) \<and>
   fst (parseAndExecuteQuery ''select count(*) from products'' (mem_client not_installed shop)) =
     Inr (JArr [JObj [(''count'', JNum 3)]]) \<and>
   executeDbQuery ''SELECT COUNT(*) as total FROM products'' (Some (mem_client not_installed shop)) =
     (Inr (JArr [JObj [(''total'', JNum 3)]]),
      [RpcCall ''execute_sql'' ''SELECT COUNT(*) as total FROM products'',
       QueryCall \<lparr>table = ''products'', columns = ''*'', head_count = True,
         eq_filter = None, limit = None\<rparr>])"
proof -
  let ?q = "''SELECT COUNT(*) as total FROM products''"
  let ?p = "''select count(*) from products''"
  let ?cl = "mem_client not_installed shop"
  obtain m where m: "js_match count_re (trim (toLowerCase ?q)) = Some m"
      and m1: "m 1 = Some ''total''" and m2: "m 2 = Some ''products''"
  proof -
    have "map_option (\<lambda>m. (m 1, m 2)) (js_match count_re (trim (toLowerCase ?q))) =
        Some (Some ''total'', Some ''products'')"
      by code_simp
    then show ?thesis using that by auto
  qed
  obtain n where n: "js_match count_re (trim (toLowerCase ?p)) = Some n"
      and n1: "n 1 = None" and n2: "n 2 = Some ''products''"
  proof -
    have "map_option (\<lambda>m. (m 1, m 2)) (js_match count_re (trim (toLowerCase ?p))) =
        Some (None, Some ''products'')"
      by code_simp
    then show ?thesis using that by auto
  qed
  have r: "query ?cl \<lparr>table = ''products'', columns = ''*'', head_count = True,
      eq_filter = None, limit = None\<rparr> = \<lparr>data = None, error = None, count = Some 3\<rparr>"
    by code_simp
  have e: "executeDbQuery ?q (Some ?cl) =
     (Inr (JArr [JObj [(''total'', JNum 3)]]),
      [RpcCall ''execute_sql'' ?q,
       QueryCall \<lparr>table = ''products'', columns = ''*'', head_count = True,
         eq_filter = None, limit = None\<rparr>])"
    by code_simp
  from count_all_translated [OF m, of ?cl] count_all_translated [OF n, of ?cl]
  show ?thesis
    using m m1 m2 n1 n2 r e by simp
qed

lemma basicSelect_branch:
  assumes "js_match simpleSelect_re (trim (toLowerCase q)) = None"
    and "js_match count_re (trim (toLowerCase q)) = None"
    and "js_match whereString_re (trim (toLowerCase q)) = None"
    and "js_match whereNum_re (trim (toLowerCase q)) = None"
    and "js_match selectColumns_re (trim (toLowerCase q)) = None"
    and "\<forall>g. js_match groupBy_re (trim (toLowerCase q)) = Some g \<longrightarrow> capture g 1 \<noteq> capture g 4"
    and "js_match basicSelect_re (trim (toLowerCase q)) = Some m"
  shows "parseAndExecuteQuery q cl = basicSelect cl m"
  using assms
  by (simp add: parseAndExecuteQuery_def lastResort_def Let_def split: option.splits)

text \<open>
  Claim C10. When the loose pattern \<^verbatim>\<open>/select.*\*.*from\s+(\w+)/\<close> is the first to match
  (none of the first five patterns matches, and the group-count pattern does not match
  or its two columns differ), the one call that is issued is a select of all columns of
  the captured table with no filter and no limit, and its rows are the result:
  whatever else the text holds plays no part.
\<close>

theorem loose_select_all:
  assumes "js_match simpleSelect_re (trim (toLowerCase q)) = None"
    and "js_match count_re (trim (toLowerCase q)) = None"
    and "js_match whereString_re (trim (toLowerCase q)) = None"
    and "js_match whereNum_re (trim (toLowerCase q)) = None"
    and "js_match selectColumns_re (trim (toLowerCase q)) = None"
    and "\<forall>g. js_match groupBy_re (trim (toLowerCase q)) = Some g \<longrightarrow> capture g 1 \<noteq> capture g 4"
    and "js_match basicSelect_re (trim (toLowerCase q)) = Some m"
  shows "\<exists>tbl. m 1 = Some tbl \<and> tbl \<noteq> [] \<and>
           parseAndExecuteQuery q cl =
             (case error (query cl \<lparr>table = tbl, columns = ''*'', head_count = False,
                     eq_filter = None, limit = None\<rparr>) of
                Some msg \<Rightarrow> Inl (Error msg)
              | None \<Rightarrow>
                  Inr (case data (query cl \<lparr>table = tbl, columns = ''*'', head_count = False,
                           eq_filter = None, limit = None\<rparr>) of
                         Some rows \<Rightarrow> JArr (map JObj rows)
                       | None \<Rightarrow> JArr []),
              [QueryCall \<lparr>table = tbl, columns = ''*'', head_count = False,
                 eq_filter = None, limit = None\<rparr>])"
proof -
  from basicSelect_captures [OF assms(7)] obtain tbl where tbl: "m 1 = Some tbl" "tbl \<noteq> []"
    by blast
  then show ?thesis
    by (simp add: basicSelect_branch [OF assms] basicSelect_def await_rows_def capture_def
        from_select_def Let_def)
qed

theorem loose_select_all_witness:
  "js_match groupBy_re (trim (toLowerCase ''SELECT id, COUNT(*) FROM products GROUP BY category''))
     \<noteq> None \<and>
   parseAndExecuteQuery ''SELECT id, COUNT(*) FROM products GROUP BY category''
       (mem_client not_installed shop) =
     (Inr (JArr (map JObj (the (map_of shop ''products'')))),
      [QueryCall \<lparr>table = ''products'', columns = ''*'', head_count = False,
         eq_filter = None, limit = None\<rparr>]) \<and>
   parseAndExecuteQuery ''SELECT * FROM products WHERE id > 1 LIMIT 1''
       (mem_client not_installed shop) =
     (Inr (JArr (map JObj (the (map_of shop ''products'')))),
      [QueryCall \<lparr>table = ''products'', columns = ''*'', head_count = False,
         eq_filter = None, limit = None\<rparr>])"
proof -
  let ?q = "''SELECT id, COUNT(*) FROM products GROUP BY category''"
  let ?p = "''SELECT * FROM products WHERE id > 1 LIMIT 1''"
  let ?cl = "mem_client not_installed shop"
  let ?qb = "\<lparr>table = ''products'', columns = ''*'', head_count = False,
      eq_filter = None, limit = None\<rparr>"
  have q1: "js_match simpleSelect_re (trim (toLowerCase ?q)) = None" by code_simp
  have q2: "js_match count_re (trim (toLowerCase ?q)) = None" by code_simp
  have q3: "js_match whereString_re (trim (toLowerCase ?q)) = None" by code_simp
  have q4: "js_match whereNum_re (trim (toLowerCase ?q)) = None" by code_simp
  have q5: "js_match selectColumns_re (trim (toLowerCase ?q)) = None" by code_simp
  have "map_option (\<lambda>g. capture g 1 = capture g 4)
      (js_match groupBy_re (trim (toLowerCase ?q))) = Some False"
    by code_simp
  then have q6: "\<forall>g. js_match groupBy_re (trim (toLowerCase ?q)) = Some g \<longrightarrow>
      capture g 1 \<noteq> capture g 4"
    and q6': "js_match groupBy_re (trim (toLowerCase ?q)) \<noteq> None"
    by auto
  obtain m where q7: "js_match basicSelect_re (trim (toLowerCase ?q)) = Some m"
    and qm: "m 1 = Some ''products''"
  proof -
    have "map_option (\<lambda>m. m 1) (js_match basicSelect_re (trim (toLowerCase ?q))) =
        Some (Some ''products'')"
      by code_simp
    then show ?thesis using that by auto
  qed
  have p1: "js_match simpleSelect_re (trim (toLowerCase ?p)) = None" by code_simp
  have p2: "js_match count_re (trim (toLowerCase ?p)) = None" by code_simp
  have p3: "js_match whereString_re (trim (toLowerCase ?p)) = None" by code_simp
  have p4: "js_match whereNum_re (trim (toLowerCase ?p)) = None" by code_simp
  have p5: "js_match selectColumns_re (trim (toLowerCase ?p)) = None" by code_simp
  have "js_match groupBy_re (trim (toLowerCase ?p)) = None" by code_simp
  then have p6: "\<forall>g. js_match groupBy_re (trim (toLowerCase ?p)) = Some g \<longrightarrow>
      capture g 1 \<noteq> capture g 4"
    by simp
  obtain n where p7: "js_match basicSelect_re (trim (toLowerCase ?p)) = Some n"
    and pn: "n 1 = Some ''products''"
  proof -
    have "map_option (\<lambda>m. m 1) (js_match basicSelect_re (trim (toLowerCase ?p))) =
        Some (Some ''products'')"
      by code_simp
    then show ?thesis using that by auto
  qed
  have r: "query ?cl ?qb =
      \<lparr>data = Some (the (map_of shop ''products'')), error = None, count = None\<rparr>"
    by code_simp
  from loose_select_all [OF q1 q2 q3 q4 q5 q6 q7, of ?cl]
    loose_select_all [OF p1 p2 p3 p4 p5 p6 p7, of ?cl]
  show ?thesis
    using q6' qm pn r by simp
qed

section \<open>Counting in a plain object\<close>









section \<open>The group-count recognizer\<close>





end
